theory Spec2Isabelle
  imports Main "HOL-Library.Char_ord" "HOL-Library.List_Lexorder"
begin

section \<open>Data model (types.ts and the schema of db.ts)\<close>

text \<open>
  The TypeScript interfaces \<open>User\<close>, \<open>Event\<close> and \<open>Registration\<close> are records whose
  fields carry the prefixes \<open>U_\<close>, \<open>E_\<close> and \<open>R_\<close>; an optional field (\<open>password?\<close>) is an
  \<open>option\<close>. The rows of the four tables are records with the column names of the schema,
  prefixed \<open>usr_\<close>, \<open>evt_\<close>, \<open>reg_\<close> and \<open>par_\<close>. The string unions of the interfaces are
  datatypes. Timestamps are the ISO strings the code writes. The column \<open>created_at\<close>
  of \<open>users\<close>, which db.ts neither reads nor writes, is left out.
\<close>

datatype UserRole = Student | Organizer | Admin

datatype approval = Pending | Approved | Rejected

datatype review = ReviewApproved | ReviewRejected

datatype reg_status = Registered | CheckedIn

record User =
  U_id :: string
  U_name :: string
  U_email :: string
  U_password :: "string option"
  U_role :: UserRole
  U_indexNumber :: "string option"
  U_uniId :: string
  U_profilePhoto :: "string option"
  U_status :: "approval option"

record NewUser =
  N_name :: string
  N_email :: string
  N_password :: "string option"
  N_role :: UserRole
  N_indexNumber :: "string option"
  N_uniId :: string
  N_profilePhoto :: "string option"
  N_status :: "approval option"

record Event =
  E_id :: string
  E_title :: string
  E_description :: string
  E_organizerName :: string
  E_organizerEmail :: string
  E_organizerId :: string
  E_department :: string
  E_venue :: string
  E_date :: string
  E_startTime :: string
  E_endTime :: string
  E_maxParticipants :: int
  E_status :: approval
  E_createdAt :: string
  E_posterUrl :: "string option"

record NewEvent =
  V_title :: string
  V_description :: string
  V_organizerName :: string
  V_organizerEmail :: string
  V_organizerId :: string
  V_department :: string
  V_venue :: string
  V_date :: string
  V_startTime :: string
  V_endTime :: string
  V_maxParticipants :: int
  V_posterUrl :: "string option"

record Registration =
  R_id :: string
  R_userId :: string
  R_userName :: string
  R_eventId :: string
  R_eventTitle :: string
  R_timestamp :: string
  R_status :: reg_status
  R_qrPayload :: string
  R_checkInTime :: "string option"

record user_row =
  usr_id :: string
  usr_name :: string
  usr_email :: string
  usr_password :: "string option"
  usr_role :: UserRole
  usr_uni_id :: string
  usr_profile_photo :: "string option"
  usr_status :: "approval option"

record event_row =
  evt_id :: string
  evt_title :: string
  evt_description :: string
  evt_organizer_name :: string
  evt_organizer_email :: string
  evt_organizer_id :: string
  evt_department :: string
  evt_venue :: string
  evt_date :: string
  evt_start_time :: string
  evt_end_time :: string
  evt_max_participants :: int
  evt_status :: approval
  evt_poster_url :: "string option"
  evt_created_at :: string

record reg_row =
  reg_id :: string
  reg_user_id :: string
  reg_user_name :: string
  reg_event_id :: string
  reg_event_title :: string
  reg_timestamp :: string
  reg_status :: reg_status
  reg_qr_payload :: string
  reg_check_in_time :: "string option"

record part_row =
  par_id :: string
  par_registration_id :: string
  par_user_id :: string
  par_event_id :: string
  par_user_name :: string
  par_event_title :: string
  par_check_in_time :: string

text \<open>The remote store: the four tables, each a list of rows in insertion order.\<close>

record store =
  users :: "user_row list"
  events :: "event_row list"
  registrations :: "reg_row list"
  participants :: "part_row list"

definition mapUser :: "user_row \<Rightarrow> User" where
  "mapUser d =
     \<lparr>U_id = usr_id d, U_name = usr_name d, U_email = usr_email d,
      U_password = usr_password d, U_role = usr_role d, U_indexNumber = None,
      U_uniId = usr_uni_id d, U_profilePhoto = usr_profile_photo d,
      U_status = Some (case usr_status d of None \<Rightarrow> Approved | Some st \<Rightarrow> st)\<rparr>"

definition mapEvent :: "event_row \<Rightarrow> Event" where
  "mapEvent d =
     \<lparr>E_id = evt_id d, E_title = evt_title d, E_description = evt_description d,
      E_organizerName = evt_organizer_name d, E_organizerEmail = evt_organizer_email d,
      E_organizerId = evt_organizer_id d, E_department = evt_department d,
      E_venue = evt_venue d, E_date = evt_date d, E_startTime = evt_start_time d,
      E_endTime = evt_end_time d, E_maxParticipants = evt_max_participants d,
      E_status = evt_status d, E_createdAt = evt_created_at d,
      E_posterUrl = evt_poster_url d\<rparr>"

definition mapReg :: "reg_row \<Rightarrow> Registration" where
  "mapReg d =
     \<lparr>R_id = reg_id d, R_userId = reg_user_id d, R_userName = reg_user_name d,
      R_eventId = reg_event_id d, R_eventTitle = reg_event_title d,
      R_timestamp = reg_timestamp d, R_status = reg_status d,
      R_qrPayload = reg_qr_payload d, R_checkInTime = reg_check_in_time d\<rparr>"

section \<open>The client and the calls it answers\<close>

text \<open>
  \<open>supabase\<close> is the module variable of db.ts: the client when both settings are non-empty,
  \<open>null\<close> otherwise. A setting is the environment's value or, when that is undefined or
  empty (JavaScript's \<open>||\<close>), the literal written in db.ts.
\<close>

datatype SupabaseClient = Client string string

definition js_or :: "string option \<Rightarrow> string \<Rightarrow> string" where
  "js_or v d = (case v of None \<Rightarrow> d | Some x \<Rightarrow> if x = [] then d else x)"

definition SUPABASE_URL :: "string option \<Rightarrow> string" where
  "SUPABASE_URL env_url = js_or env_url ''https://kfbnobnuqlnugqesdwmj.supabase.co''"

definition SUPABASE_ANON_KEY :: "string option \<Rightarrow> string" where
  "SUPABASE_ANON_KEY env_key = js_or env_key ''sb_publishable_wHrJ8oJPCDLD6Kr75ItsPA_LgvqUZcD''"

definition supabase :: "string option \<Rightarrow> string option \<Rightarrow> SupabaseClient option" where
  "supabase env_url env_key =
     (if SUPABASE_URL env_url \<noteq> [] \<and> SUPABASE_ANON_KEY env_key \<noteq> []
      then Some (Client (SUPABASE_URL env_url) (SUPABASE_ANON_KEY env_key))
      else None)"

text \<open>
  Every awaited call is answered with a pair of \<open>data\<close> and \<open>error\<close>; the client returns
  errors, it does not throw them. Whether the backend answers a call or reports an error
  (lost connection, policy, constraint) is not decided by db.ts: each call takes the
  backend's verdict \<open>ok\<close> as an input, and a call that is not answered changes nothing.
  The primary key of a table is checked on insert, since row identity rests on it; the new
  row's id (\<open>gen_random_uuid()\<close>) and the clock are inputs as well.

  \<open>maybeSingle\<close> gives the row when exactly one matches, \<open>null\<close> without error when none
  does, and an error when several do; \<open>single\<close> gives an error unless exactly one matches.
\<close>

datatype 'a pg_response = PgResponse (pg_data: "'a option") (pg_error: bool)

definition maybeSingle :: "bool \<Rightarrow> 'a list \<Rightarrow> 'a pg_response" where
  "maybeSingle ok rows =
     (if \<not> ok then PgResponse None True
      else case rows of
             [] \<Rightarrow> PgResponse None False
           | [r] \<Rightarrow> PgResponse (Some r) False
           | _ \<Rightarrow> PgResponse None True)"

definition single :: "bool \<Rightarrow> 'a list \<Rightarrow> 'a pg_response" where
  "single ok rows =
     (if \<not> ok then PgResponse None True
      else case rows of
             [r] \<Rightarrow> PgResponse (Some r) False
           | _ \<Rightarrow> PgResponse None True)"

definition pg_select :: "bool \<Rightarrow> 'a list \<Rightarrow> 'a list pg_response" where
  "pg_select ok rows = (if ok then PgResponse (Some rows) False else PgResponse None True)"

definition pg_insert ::
  "bool \<Rightarrow> ('a \<Rightarrow> string) \<Rightarrow> 'a \<Rightarrow> 'a list \<Rightarrow> 'a list \<times> 'a pg_response" where
  "pg_insert ok key new rows =
     (if ok \<and> key new \<notin> set (map key rows)
      then (rows @ [new], PgResponse (Some new) False)
      else (rows, PgResponse None True))"

definition pg_update ::
  "bool \<Rightarrow> ('a \<Rightarrow> bool) \<Rightarrow> ('a \<Rightarrow> 'a) \<Rightarrow> 'a list \<Rightarrow> 'a list \<times> bool" where
  "pg_update ok P f rows =
     (if ok then (map (\<lambda>r. if P r then f r else r) rows, False) else (rows, True))"

text \<open>
  A query with \<open>order\<close> fixes the order of the rows by one column only; rows that agree
  on that column come in an order the backend chooses. That choice is an input as well: a
  rank \<open>tie\<close> on rows, which decides among rows with equal keys and nothing else.
\<close>

definition order_asc :: "('a \<Rightarrow> 'k::linorder) \<Rightarrow> ('a \<Rightarrow> nat) \<Rightarrow> 'a list \<Rightarrow> 'a list" where
  "order_asc key tie rows = sort_key key (sort_key tie rows)"

definition order_desc :: "('a \<Rightarrow> 'k::linorder) \<Rightarrow> ('a \<Rightarrow> nat) \<Rightarrow> 'a list \<Rightarrow> 'a list" where
  "order_desc key tie rows = rev (sort_key key (rev (sort_key tie rows)))"

text \<open>
  Deleting an event cascades (\<open>on delete cascade\<close>) to the registrations of the event and
  to the participants rows that reference the event or one of those registrations.
\<close>

definition delete_event_cascade :: "string \<Rightarrow> store \<Rightarrow> store" where
  "delete_event_cascade eventId s =
     (if eventId \<in> set (map evt_id (events s))
      then
        let gone = map reg_id (filter (\<lambda>r. reg_event_id r = eventId) (registrations s))
        in s\<lparr>events := filter (\<lambda>e. evt_id e \<noteq> eventId) (events s),
             registrations := filter (\<lambda>r. reg_event_id r \<noteq> eventId) (registrations s),
             participants :=
               filter (\<lambda>p. par_event_id p \<noteq> eventId \<and> par_registration_id p \<notin> set gone)
                 (participants s)\<rparr>
      else s)"

datatype error = NotConfigured | PostgrestError | TypeError


section \<open>The operations of DB (db.ts)\<close>

text \<open>
  Each method of \<open>DB\<close> takes the client, the backend's verdicts on its calls, its own
  arguments and the store, and returns what the promise settles to together with the store
  it leaves: \<open>Inl\<close> is a rejected promise (a thrown error), \<open>Inr\<close> the resolved value.
  Reading a property of \<open>null\<close> (\<open>mapReg(null)\<close>, \<open>data.map\<close> on \<open>null\<close>) raises
  a \<open>TypeError\<close>.
\<close>

definition init :: "SupabaseClient option \<Rightarrow> bool \<Rightarrow> bool \<Rightarrow> string \<Rightarrow> store \<Rightarrow> store" where
  "init sb lookup_ok insert_ok new_id s =
     (case sb of
        None \<Rightarrow> s
      | Some _ \<Rightarrow>
          (case pg_data (maybeSingle lookup_ok
                  (map usr_id (filter (\<lambda>u. usr_email u = ''admin@gmail.com'') (users s)))) of
             Some _ \<Rightarrow> s
           | None \<Rightarrow>
               s\<lparr>users := fst (pg_insert insert_ok usr_id
                    \<lparr>usr_id = new_id, usr_name = ''System Admin'',
                     usr_email = ''admin@gmail.com'', usr_password = Some ''123'',
                     usr_role = Admin, usr_uni_id = ''ADMIN-001'',
                     usr_profile_photo = Some ''/admin.png'',
                     usr_status = Some Approved\<rparr> (users s))\<rparr>))"

definition findUserByEmail ::
  "SupabaseClient option \<Rightarrow> bool \<Rightarrow> string \<Rightarrow> store \<Rightarrow> error + User option" where
  "findUserByEmail sb ok email s =
     (case sb of
        None \<Rightarrow> Inl NotConfigured
      | Some _ \<Rightarrow>
          (let r = maybeSingle ok (filter (\<lambda>u. usr_email u = email) (users s))
           in if pg_error r then Inl PostgrestError
              else case pg_data r of
                     None \<Rightarrow> Inr None
                   | Some d \<Rightarrow> Inr (Some (mapUser d))))"

definition createUser ::
  "SupabaseClient option \<Rightarrow> bool \<Rightarrow> string \<Rightarrow> NewUser \<Rightarrow> store \<Rightarrow> (error + User) \<times> store" where
  "createUser sb ok new_id user s =
     (case sb of
        None \<Rightarrow> (Inl NotConfigured, s)
      | Some _ \<Rightarrow>
          (let status = (if N_role user = Organizer then Pending else Approved);
               ins = pg_insert ok usr_id
                       \<lparr>usr_id = new_id, usr_name = N_name user, usr_email = N_email user,
                        usr_password = N_password user, usr_role = N_role user,
                        usr_uni_id = N_uniId user, usr_profile_photo = N_profilePhoto user,
                        usr_status = Some status\<rparr> (users s);
               s' = s\<lparr>users := fst ins\<rparr>
           in if pg_error (snd ins) then (Inl PostgrestError, s')
              else case pg_data (snd ins) of
                     None \<Rightarrow> (Inl TypeError, s')
                   | Some d \<Rightarrow> (Inr (mapUser d), s')))"

definition role_text :: "UserRole \<Rightarrow> string" where
  "role_text r = (case r of Student \<Rightarrow> ''student'' | Organizer \<Rightarrow> ''organizer'' | Admin \<Rightarrow> ''admin'')"

definition getAllUsers ::
  "SupabaseClient option \<Rightarrow> bool \<Rightarrow> (user_row \<Rightarrow> nat) \<Rightarrow> store \<Rightarrow> error + User list" where
  "getAllUsers sb ok tie s =
     (case sb of
        None \<Rightarrow> Inr []
      | Some _ \<Rightarrow>
          (let r = pg_select ok (order_asc (\<lambda>u. role_text (usr_role u)) tie (users s))
           in if pg_error r then Inr []
              else case pg_data r of
                     None \<Rightarrow> Inl TypeError
                   | Some d \<Rightarrow> Inr (map mapUser d)))"

definition getPendingUsers :: "SupabaseClient option \<Rightarrow> bool \<Rightarrow> store \<Rightarrow> error + User list" where
  "getPendingUsers sb ok s =
     (case sb of
        None \<Rightarrow> Inr []
      | Some _ \<Rightarrow>
          (let r = pg_select ok
                     (filter (\<lambda>u. usr_role u = Organizer \<and> usr_status u = Some Pending) (users s))
           in if pg_error r then Inr []
              else case pg_data r of
                     None \<Rightarrow> Inl TypeError
                   | Some d \<Rightarrow> Inr (map mapUser d)))"

definition approval_of :: "review \<Rightarrow> approval" where
  "approval_of v = (case v of ReviewApproved \<Rightarrow> Approved | ReviewRejected \<Rightarrow> Rejected)"

definition updateUserStatus ::
  "SupabaseClient option \<Rightarrow> bool \<Rightarrow> string \<Rightarrow> review \<Rightarrow> store \<Rightarrow> (error + bool) \<times> store" where
  "updateUserStatus sb ok userId status s =
     (case sb of
        None \<Rightarrow> (Inl NotConfigured, s)
      | Some _ \<Rightarrow>
          (let upd = pg_update ok (\<lambda>u. usr_id u = userId)
                       (\<lambda>u. u\<lparr>usr_status := Some (approval_of status)\<rparr>) (users s)
           in (Inr (\<not> snd upd), s\<lparr>users := fst upd\<rparr>)))"

definition getEvents ::
  "SupabaseClient option \<Rightarrow> bool \<Rightarrow> (event_row \<Rightarrow> nat) \<Rightarrow> store \<Rightarrow> error + Event list" where
  "getEvents sb ok tie s =
     (case sb of
        None \<Rightarrow> Inr []
      | Some _ \<Rightarrow>
          (let r = pg_select ok (order_desc evt_created_at tie (events s))
           in if pg_error r then Inr []
              else case pg_data r of
                     None \<Rightarrow> Inl TypeError
                   | Some d \<Rightarrow> Inr (map mapEvent d)))"

definition createEvent ::
  "SupabaseClient option \<Rightarrow> bool \<Rightarrow> string \<Rightarrow> string \<Rightarrow> NewEvent \<Rightarrow> store
     \<Rightarrow> (error + Event) \<times> store" where
  "createEvent sb ok new_id now evt s =
     (case sb of
        None \<Rightarrow> (Inl NotConfigured, s)
      | Some _ \<Rightarrow>
          (let ins = pg_insert ok evt_id
                       \<lparr>evt_id = new_id, evt_title = V_title evt,
                        evt_description = V_description evt,
                        evt_organizer_name = V_organizerName evt,
                        evt_organizer_email = V_organizerEmail evt,
                        evt_organizer_id = V_organizerId evt,
                        evt_department = V_department evt, evt_venue = V_venue evt,
                        evt_date = V_date evt, evt_start_time = V_startTime evt,
                        evt_end_time = V_endTime evt,
                        evt_max_participants = V_maxParticipants evt,
                        evt_status = Pending, evt_poster_url = V_posterUrl evt,
                        evt_created_at = now\<rparr> (events s);
               s' = s\<lparr>events := fst ins\<rparr>
           in if pg_error (snd ins) then (Inl PostgrestError, s')
              else case pg_data (snd ins) of
                     None \<Rightarrow> (Inl TypeError, s')
                   | Some d \<Rightarrow> (Inr (mapEvent d), s')))"

definition updateEventStatus ::
  "SupabaseClient option \<Rightarrow> bool \<Rightarrow> string \<Rightarrow> review \<Rightarrow> store \<Rightarrow> (error + bool) \<times> store" where
  "updateEventStatus sb ok eventId status s =
     (case sb of
        None \<Rightarrow> (Inl NotConfigured, s)
      | Some _ \<Rightarrow>
          (let upd = pg_update ok (\<lambda>e. evt_id e = eventId)
                       (\<lambda>e. e\<lparr>evt_status := approval_of status\<rparr>) (events s)
           in (Inr (\<not> snd upd), s\<lparr>events := fst upd\<rparr>)))"

definition deleteEvent ::
  "SupabaseClient option \<Rightarrow> bool \<Rightarrow> string \<Rightarrow> store \<Rightarrow> (error + unit) \<times> store" where
  "deleteEvent sb ok eventId s =
     (case sb of
        None \<Rightarrow> (Inr (), s)
      | Some _ \<Rightarrow> (Inr (), if ok then delete_event_cascade eventId s else s))"

record register_env =
  rg_now :: string
  rg_new_id :: string
  rg_lookup_ok :: bool
  rg_insert_ok :: bool

definition registerForEvent ::
  "SupabaseClient option \<Rightarrow> register_env \<Rightarrow> string \<Rightarrow> string \<Rightarrow> string \<Rightarrow> string \<Rightarrow> store
     \<Rightarrow> (error + Registration option) \<times> store" where
  "registerForEvent sb env userId userName eventId eventTitle s =
     (case sb of
        None \<Rightarrow> (Inl NotConfigured, s)
      | Some _ \<Rightarrow>
          (case pg_data (maybeSingle (rg_lookup_ok env)
                  (map reg_id (filter (\<lambda>r. reg_user_id r = userId \<and> reg_event_id r = eventId)
                                 (registrations s)))) of
             Some _ \<Rightarrow> (Inr None, s)
           | None \<Rightarrow>
               (let ins = pg_insert (rg_insert_ok env) reg_id
                            \<lparr>reg_id = rg_new_id env, reg_user_id = userId,
                             reg_user_name = userName, reg_event_id = eventId,
                             reg_event_title = eventTitle, reg_timestamp = rg_now env,
                             reg_status = Registered,
                             reg_qr_payload = eventId @ '':'' @ userId,
                             reg_check_in_time = None\<rparr> (registrations s);
                    s' = s\<lparr>registrations := fst ins\<rparr>
                in if pg_error (snd ins) then (Inl PostgrestError, s')
                   else case pg_data (snd ins) of
                          None \<Rightarrow> (Inl TypeError, s')
                        | Some d \<Rightarrow> (Inr (Some (mapReg d)), s'))))"

definition getRegistrationsByUser ::
  "SupabaseClient option \<Rightarrow> bool \<Rightarrow> string \<Rightarrow> store \<Rightarrow> error + Registration list" where
  "getRegistrationsByUser sb ok userId s =
     (case sb of
        None \<Rightarrow> Inr []
      | Some _ \<Rightarrow>
          (let r = pg_select ok (filter (\<lambda>x. reg_user_id x = userId) (registrations s))
           in if pg_error r then Inr []
              else case pg_data r of
                     None \<Rightarrow> Inl TypeError
                   | Some d \<Rightarrow> Inr (map mapReg d)))"

definition getRegistrationsByEvent ::
  "SupabaseClient option \<Rightarrow> bool \<Rightarrow> string \<Rightarrow> store \<Rightarrow> error + Registration list" where
  "getRegistrationsByEvent sb ok eventId s =
     (case sb of
        None \<Rightarrow> Inr []
      | Some _ \<Rightarrow>
          (let r = pg_select ok (filter (\<lambda>x. reg_event_id x = eventId) (registrations s))
           in if pg_error r then Inr []
              else case pg_data r of
                     None \<Rightarrow> Inl TypeError
                   | Some d \<Rightarrow> Inr (map mapReg d)))"

definition getAllParticipants ::
  "SupabaseClient option \<Rightarrow> bool \<Rightarrow> (part_row \<Rightarrow> nat) \<Rightarrow> store \<Rightarrow> error + part_row list" where
  "getAllParticipants sb ok tie s =
     (case sb of
        None \<Rightarrow> Inr []
      | Some _ \<Rightarrow>
          (let r = pg_select ok (order_desc par_check_in_time tie (participants s))
           in if pg_error r then Inr []
              else case pg_data r of
                     None \<Rightarrow> Inl TypeError
                   | Some d \<Rightarrow> Inr d))"

record checkin_result =
  success :: bool
  message :: "string option"
  registration :: "Registration option"

record checkin_env =
  ci_now :: string
  ci_new_id :: string
  ci_fetch_ok :: bool
  ci_update_ok :: bool
  ci_insert_ok :: bool
  ci_final_ok :: bool

definition checkInUser ::
  "SupabaseClient option \<Rightarrow> checkin_env \<Rightarrow> string \<Rightarrow> store
     \<Rightarrow> (error + checkin_result) \<times> store" where
  "checkInUser sb env qrPayload s =
     (case sb of
        None \<Rightarrow> (Inl NotConfigured, s)
      | Some _ \<Rightarrow>
          (let fetched = maybeSingle (ci_fetch_ok env)
                           (filter (\<lambda>r. reg_qr_payload r = qrPayload) (registrations s))
           in if pg_error fetched
              then (Inr \<lparr>success = False, message = Some ''Invalid registration code.'',
                         registration = None\<rparr>, s)
              else case pg_data fetched of
                None \<Rightarrow>
                  (Inr \<lparr>success = False, message = Some ''Invalid registration code.'',
                        registration = None\<rparr>, s)
              | Some reg \<Rightarrow>
                  if reg_status reg = CheckedIn
                  then (Inr \<lparr>success = False, message = Some ''Already checked in!'',
                             registration = Some (mapReg reg)\<rparr>, s)
                  else
                    (let now = ci_now env;
                         upd = pg_update (ci_update_ok env) (\<lambda>r. reg_id r = reg_id reg)
                                 (\<lambda>r. r\<lparr>reg_status := CheckedIn,
                                         reg_check_in_time := Some now\<rparr>) (registrations s)
                     in if snd upd
                        then (Inr \<lparr>success = False, message = Some ''Check-in failed.'',
                                   registration = None\<rparr>, s)
                        else
                          (let s1 = s\<lparr>registrations := fst upd\<rparr>;
                               s2 = s1\<lparr>participants :=
                                      fst (pg_insert (ci_insert_ok env) par_id
                                        \<lparr>par_id = ci_new_id env,
                                         par_registration_id = reg_id reg,
                                         par_user_id = reg_user_id reg,
                                         par_event_id = reg_event_id reg,
                                         par_user_name = reg_user_name reg,
                                         par_event_title = reg_event_title reg,
                                         par_check_in_time = now\<rparr> (participants s1))\<rparr>
                           in case pg_data (single (ci_final_ok env)
                                     (filter (\<lambda>r. reg_id r = reg_id reg) (registrations s2))) of
                                None \<Rightarrow> (Inl TypeError, s2)
                              | Some finalReg \<Rightarrow>
                                  (Inr \<lparr>success = True, message = None,
                                        registration = Some (mapReg finalReg)\<rparr>, s2)))))"

section \<open>Sequences of operations\<close>

text \<open>
  The operations that write to the store, with the backend's verdicts as part of each
  call; \<open>run\<close> performs them one after the other on one client.
\<close>

datatype db_op =
    Init bool bool string
  | CreateUser bool string NewUser
  | UpdateUserStatus bool string review
  | CreateEvent bool string string NewEvent
  | UpdateEventStatus bool string review
  | DeleteEvent bool string
  | RegisterForEvent register_env string string string string
  | CheckInUser checkin_env string

fun step :: "SupabaseClient option \<Rightarrow> db_op \<Rightarrow> store \<Rightarrow> store" where
  "step sb (Init lookup_ok insert_ok new_id) s = init sb lookup_ok insert_ok new_id s"
| "step sb (CreateUser ok new_id user) s = snd (createUser sb ok new_id user s)"
| "step sb (UpdateUserStatus ok userId status) s = snd (updateUserStatus sb ok userId status s)"
| "step sb (CreateEvent ok new_id now evt) s = snd (createEvent sb ok new_id now evt s)"
| "step sb (UpdateEventStatus ok eventId status) s = snd (updateEventStatus sb ok eventId status s)"
| "step sb (DeleteEvent ok eventId) s = snd (deleteEvent sb ok eventId s)"
| "step sb (RegisterForEvent env userId userName eventId eventTitle) s =
     snd (registerForEvent sb env userId userName eventId eventTitle s)"
| "step sb (CheckInUser env qrPayload) s = snd (checkInUser sb env qrPayload s)"

fun run :: "SupabaseClient option \<Rightarrow> db_op list \<Rightarrow> store \<Rightarrow> store" where
  "run sb [] s = s"
| "run sb (x # xs) s = run sb xs (step sb x s)"

section \<open>Properties of the store and of runs\<close>

text \<open>
  \<open>reg_unique\<close>: at most one registration per pair of user and event.
  \<open>lookup_answered\<close>: the existence lookup of a \<open>registerForEvent\<close> call was answered
  (every other operation has none). \<open>issues_reg_id i\<close>: the operation draws \<open>i\<close> as the id
  of a new registration. \<open>settled r\<close>: every row that carries the id of \<open>r\<close> is \<open>r\<close> itself.
  \<open>audit_rows r\<close>: the participants rows that reference \<open>r\<close>.
\<close>

definition reg_unique :: "store \<Rightarrow> bool" where
  "reg_unique s = distinct (map (\<lambda>r. (reg_user_id r, reg_event_id r)) (registrations s))"

fun lookup_answered :: "db_op \<Rightarrow> bool" where
  "lookup_answered (RegisterForEvent env userId userName eventId eventTitle) = rg_lookup_ok env"
| "lookup_answered other = True"

fun issues_reg_id :: "string \<Rightarrow> db_op \<Rightarrow> bool" where
  "issues_reg_id i (RegisterForEvent env userId userName eventId eventTitle) = (rg_new_id env = i)"
| "issues_reg_id i other = False"

definition settled :: "reg_row \<Rightarrow> store \<Rightarrow> bool" where
  "settled r s = (\<forall>x\<in>set (registrations s). reg_id x = reg_id r \<longrightarrow> x = r)"

definition audit_rows :: "reg_row \<Rightarrow> store \<Rightarrow> part_row set" where
  "audit_rows r s = {a \<in> set (participants s). par_registration_id a = reg_id r}"

abbreviation (input) stamp :: "string \<Rightarrow> reg_row \<Rightarrow> reg_row" where
  "stamp now r \<equiv> r\<lparr>reg_status := CheckedIn, reg_check_in_time := Some now\<rparr>"

section \<open>A small campus\<close>

text \<open>
  One student, one approved event and the student's pass, before and after the scan; the
  environments \<open>scan\<close> and \<open>signup\<close> answer every call.
\<close>

definition ann_id :: string where
  "ann_id = ''3f2b8c1e-5a47-4d09-9e6b-7c1d2a4f8b10''"

definition intro_id :: string where
  "intro_id = ''91d4e7a2-0c35-4b68-8f1a-2e6b9c0d7a53''"

definition pass_id :: string where
  "pass_id = ''c7a1f0e4-6b29-4d83-a5c2-1f8e3b7d9a06''"

definition pass2_id :: string where
  "pass2_id = ''5e9b2d7c-8a14-4f60-b3d1-6a0c4e2f7b98''"

definition audit_id :: string where
  "audit_id = ''0b6c3a9d-2e71-4a58-9c4f-d8e1b5a7c320''"

definition pass_code :: string where
  "pass_code = intro_id @ '':'' @ ann_id"

definition ann :: user_row where
  "ann = \<lparr>usr_id = ann_id, usr_name = ''Ann'', usr_email = ''ann@example.org'',
          usr_password = Some ''pw'', usr_role = Student, usr_uni_id = ''S-100'',
          usr_profile_photo = None, usr_status = Some Approved\<rparr>"

definition intro :: event_row where
  "intro = \<lparr>evt_id = intro_id, evt_title = ''Intro'', evt_description = ''First session'',
            evt_organizer_name = ''Bea'', evt_organizer_email = ''bea@example.org'',
            evt_organizer_id = ''64a0d3f1-7c82-4e15-b9a6-3d5f1e8c2b47'',
            evt_department = ''ICT'', evt_venue = ''Hall A'', evt_date = ''2025-03-01'',
            evt_start_time = ''09:00'', evt_end_time = ''11:00'', evt_max_participants = 50,
            evt_status = Approved, evt_poster_url = None,
            evt_created_at = ''2025-02-01T08:00:00.000Z''\<rparr>"

definition pass :: reg_row where
  "pass = \<lparr>reg_id = pass_id, reg_user_id = ann_id, reg_user_name = ''Ann'',
           reg_event_id = intro_id, reg_event_title = ''Intro'',
           reg_timestamp = ''2025-02-10T10:00:00.000Z'', reg_status = Registered,
           reg_qr_payload = pass_code, reg_check_in_time = None\<rparr>"

definition scan :: checkin_env where
  "scan = \<lparr>ci_now = ''2025-03-01T08:55:00.000Z'', ci_new_id = audit_id, ci_fetch_ok = True,
            ci_update_ok = True, ci_insert_ok = True, ci_final_ok = True\<rparr>"

definition pass_used :: reg_row where
  "pass_used = pass\<lparr>reg_status := CheckedIn, reg_check_in_time := Some (ci_now scan)\<rparr>"

definition audit :: part_row where
  "audit = \<lparr>par_id = audit_id, par_registration_id = pass_id, par_user_id = ann_id,
            par_event_id = intro_id, par_user_name = ''Ann'', par_event_title = ''Intro'',
            par_check_in_time = ci_now scan\<rparr>"

definition signup :: register_env where
  "signup = \<lparr>rg_now = ''2025-02-10T10:00:00.000Z'', rg_new_id = pass_id,
              rg_lookup_ok = True, rg_insert_ok = True\<rparr>"

definition campus_open :: store where
  "campus_open = \<lparr>users = [ann], events = [intro], registrations = [], participants = []\<rparr>"

definition campus :: store where
  "campus = \<lparr>users = [ann], events = [intro], registrations = [pass], participants = []\<rparr>"

definition campus_scanned :: store where
  "campus_scanned =
     \<lparr>users = [ann], events = [intro], registrations = [pass_used], participants = [audit]\<rparr>"

text \<open>
  The same scan with one call not answered: the update, the lookup, or the audit insert
  together with the final re-read; a sign-up whose insert is rejected; and the store in
  which the pass is used but no audit row was written.
\<close>

definition scan_no_update :: checkin_env where
  "scan_no_update = scan\<lparr>ci_update_ok := False\<rparr>"

definition scan_no_lookup :: checkin_env where
  "scan_no_lookup = scan\<lparr>ci_fetch_ok := False\<rparr>"

definition scan_cut_off :: checkin_env where
  "scan_cut_off = scan\<lparr>ci_insert_ok := False, ci_final_ok := False\<rparr>"

definition signup_rejected :: register_env where
  "signup_rejected = signup\<lparr>rg_insert_ok := False\<rparr>"

definition campus_unaudited :: store where
  "campus_unaudited =
     \<lparr>users = [ann], events = [intro], registrations = [pass_used], participants = []\<rparr>"

text \<open>
  A person who signs up with a role and a status of their own choosing, the account and the
  users row the sign-up creates with a given status, and the campus after it.
\<close>

definition bea_id :: string where
  "bea_id = ''64a0d3f1-7c82-4e15-b9a6-3d5f1e8c2b47''"

definition applicant :: "UserRole \<Rightarrow> approval option \<Rightarrow> NewUser" where
  "applicant r supplied =
     \<lparr>N_name = ''Bea'', N_email = ''bea@example.org'', N_password = Some ''pw'', N_role = r,
      N_indexNumber = None, N_uniId = ''T-7'', N_profilePhoto = Some ''photo'',
      N_status = supplied\<rparr>"

definition account :: "UserRole \<Rightarrow> approval \<Rightarrow> User" where
  "account r st =
     \<lparr>U_id = bea_id, U_name = ''Bea'', U_email = ''bea@example.org'', U_password = Some ''pw'',
      U_role = r, U_indexNumber = None, U_uniId = ''T-7'', U_profilePhoto = Some ''photo'',
      U_status = Some st\<rparr>"

definition account_row :: "UserRole \<Rightarrow> approval \<Rightarrow> user_row" where
  "account_row r st =
     \<lparr>usr_id = bea_id, usr_name = ''Bea'', usr_email = ''bea@example.org'',
      usr_password = Some ''pw'', usr_role = r, usr_uni_id = ''T-7'',
      usr_profile_photo = Some ''photo'', usr_status = Some st\<rparr>"

definition campus_joined :: "UserRole \<Rightarrow> approval \<Rightarrow> store" where
  "campus_joined r st =
     \<lparr>users = [ann, account_row r st], events = [intro], registrations = [],
      participants = []\<rparr>"

section \<open>Lemmas about the calls\<close>

lemmas account_defs =
  bea_id_def applicant_def account_def account_row_def campus_joined_def

lemmas demo_defs =
  ann_id_def intro_id_def pass_id_def pass2_id_def audit_id_def pass_code_def ann_def intro_def
  pass_def scan_def pass_used_def audit_def signup_def campus_open_def campus_def
  campus_scanned_def scan_no_update_def scan_no_lookup_def scan_cut_off_def
  signup_rejected_def campus_unaudited_def

lemmas call_defs =
  maybeSingle_def single_def pg_select_def pg_insert_def pg_update_def Let_def

text \<open>
  An ordered answer holds the rows of the table, sorted by the column; among rows with
  equal keys the rank alone decides, so either order of two such rows is an answer.
\<close>

lemma order_asc_sorted:
  "set (order_asc key tie rows) = set rows \<and>
   length (order_asc key tie rows) = length rows \<and>
   sorted (map key (order_asc key tie rows))"
  by (simp add: order_asc_def)

lemma order_desc_sorted:
  "set (order_desc key tie rows) = set rows \<and>
   length (order_desc key tie rows) = length rows \<and>
   sorted (map key (rev (order_desc key tie rows)))"
  by (simp add: order_desc_def)

lemma order_ties_open:
  assumes "key a = key b" and "tie a < tie b"
  shows "order_desc key tie [a, b] = [a, b] \<and> order_desc key tie [b, a] = [a, b] \<and>
         order_asc key tie [a, b] = [a, b] \<and> order_asc key tie [b, a] = [a, b]"
  using assms by (simp add: order_desc_def order_asc_def)

lemma supabase_client:
  "supabase env_url env_key = Some (Client (SUPABASE_URL env_url) (SUPABASE_ANON_KEY env_key))"
  by (simp add: supabase_def SUPABASE_URL_def SUPABASE_ANON_KEY_def js_or_def split: option.splits)

lemma filter_key_single:
  "filter (\<lambda>r. key r = k) xs = [x] \<Longrightarrow>
     \<exists>i<length xs. xs ! i = x \<and> key x = k \<and>
       map (\<lambda>r. if key r = k then f r else r) xs = xs[i := f x]"
proof (induction xs)
  case Nil
  then show ?case by simp
next
  case (Cons a xs)
  show ?case
  proof (cases "key a = k")
    case True
    with Cons.prems have ax: "a = x" and rest: "filter (\<lambda>r. key r = k) xs = []"
      by simp_all
    from rest have "\<forall>r\<in>set xs. key r \<noteq> k"
      by (simp add: filter_empty_conv)
    then have "map (\<lambda>r. if key r = k then f r else r) xs = xs"
      by (simp add: map_idI)
    with True ax show ?thesis
      by (intro exI [of _ 0]) simp
  next
    case False
    with Cons.prems have "filter (\<lambda>r. key r = k) xs = [x]" by simp
    from Cons.IH [OF this] obtain i where
      i: "i < length xs" "xs ! i = x" "key x = k"
         "map (\<lambda>r. if key r = k then f r else r) xs = xs[i := f x]"
      by blast
    with False show ?thesis
      by (intro exI [of _ "Suc i"]) simp
  qed
qed

lemma distinct_key_filter:
  "distinct (map key xs) \<Longrightarrow> x \<in> set xs \<Longrightarrow> filter (\<lambda>r. key r = key x) xs = [x]"
proof (induction xs)
  case Nil
  then show ?case by simp
next
  case (Cons a xs)
  show ?case
  proof (cases "a = x")
    case True
    with Cons.prems have "key x \<notin> key ` set xs" by simp
    then have "\<forall>r\<in>set xs. key r \<noteq> key x" by (metis imageI)
    then have "filter (\<lambda>r. key r = key x) xs = []"
      by (simp add: filter_empty_conv)
    with True show ?thesis by simp
  next
    case False
    with Cons.prems have "x \<in> set xs" "distinct (map key xs)" "key a \<noteq> key x"
      by auto
    with Cons.IH show ?thesis by simp
  qed
qed

lemma filter_map_key:
  "(\<And>r. key (g r) = key r) \<Longrightarrow>
     filter (\<lambda>r. key r = k) (map g xs) = map g (filter (\<lambda>r. key r = k) xs)"
  by (induction xs) simp_all

lemma refetch_after_update:
  assumes "filter (\<lambda>r. reg_id r = k) xs = [x]"
  shows "filter (\<lambda>r. reg_id r = k)
           (map (\<lambda>r. if reg_id r = k then stamp now r else r) xs) = [stamp now x]"
proof -
  have "filter (\<lambda>r. reg_id r = k) (map (\<lambda>r. if reg_id r = k then stamp now r else r) xs)
        = map (\<lambda>r. if reg_id r = k then stamp now r else r) (filter (\<lambda>r. reg_id r = k) xs)"
    by (rule filter_map_key) simp
  also have "\<dots> = [stamp now x]"
  proof -
    from assms have "x \<in> set (filter (\<lambda>r. reg_id r = k) xs)" by simp
    then have "reg_id x = k" by simp
    with assms show ?thesis by simp
  qed
  finally show ?thesis .
qed

text \<open>
  What \<open>checkInUser\<close> does once its lookup has returned one row: the remaining
  branches, with the update written out.
\<close>

lemma checkInUser_found:
  assumes "ci_fetch_ok env"
    and "filter (\<lambda>r. reg_qr_payload r = qrPayload) (registrations s) = [reg]"
  shows "checkInUser (Some c) env qrPayload s =
     (if reg_status reg = CheckedIn
      then (Inr \<lparr>success = False, message = Some ''Already checked in!'',
                 registration = Some (mapReg reg)\<rparr>, s)
      else if \<not> ci_update_ok env
      then (Inr \<lparr>success = False, message = Some ''Check-in failed.'',
                 registration = None\<rparr>, s)
      else
        (let s2 = s\<lparr>registrations :=
                      map (\<lambda>r. if reg_id r = reg_id reg then stamp (ci_now env) r else r)
                        (registrations s),
                    participants :=
                      fst (pg_insert (ci_insert_ok env) par_id
                        \<lparr>par_id = ci_new_id env,
                         par_registration_id = reg_id reg,
                         par_user_id = reg_user_id reg,
                         par_event_id = reg_event_id reg,
                         par_user_name = reg_user_name reg,
                         par_event_title = reg_event_title reg,
                         par_check_in_time = ci_now env\<rparr> (participants s))\<rparr>
         in case pg_data (single (ci_final_ok env)
                   (filter (\<lambda>r. reg_id r = reg_id reg) (registrations s2))) of
              None \<Rightarrow> (Inl TypeError, s2)
            | Some finalReg \<Rightarrow>
                (Inr \<lparr>success = True, message = None,
                      registration = Some (mapReg finalReg)\<rparr>, s2)))"
  using assms
  by (simp add: checkInUser_def maybeSingle_def pg_update_def Let_def split: option.splits)

lemma maybeSingle_Some: "pg_data (maybeSingle ok rows) = Some r \<longleftrightarrow> ok \<and> rows = [r]"
  by (auto simp: maybeSingle_def split: list.splits)

lemma single_Some: "pg_data (single ok rows) = Some r \<longleftrightarrow> ok \<and> rows = [r]"
  by (auto simp: single_def split: list.splits)

lemma single_ok: "single True [r] = PgResponse (Some r) False"
  by (simp add: single_def)

lemma filter_single_in: "filter P xs = [x] \<Longrightarrow> x \<in> set xs"
proof -
  assume "filter P xs = [x]"
  then have "x \<in> set (filter P xs)" by simp
  then show ?thesis by simp
qed

lemma filter_single_holds: "filter P xs = [x] \<Longrightarrow> P x"
proof -
  assume "filter P xs = [x]"
  then have "x \<in> set (filter P xs)" by simp
  then show ?thesis by simp
qed

subsection \<open>What each operation does to the tables\<close>

lemma init_tables:
  "registrations (init sb a b n s) = registrations s \<and>
   participants (init sb a b n s) = participants s"
  by (simp add: init_def split: option.splits)

lemma createUser_tables:
  "registrations (snd (createUser sb ok n u s)) = registrations s \<and>
   participants (snd (createUser sb ok n u s)) = participants s"
  by (simp add: createUser_def Let_def split: option.splits)

lemma updateUserStatus_tables:
  "registrations (snd (updateUserStatus sb ok i v s)) = registrations s \<and>
   participants (snd (updateUserStatus sb ok i v s)) = participants s"
  by (simp add: updateUserStatus_def Let_def split: option.splits)

lemma createEvent_tables:
  "registrations (snd (createEvent sb ok n t e s)) = registrations s \<and>
   participants (snd (createEvent sb ok n t e s)) = participants s"
  by (simp add: createEvent_def Let_def split: option.splits)

lemma updateEventStatus_tables:
  "registrations (snd (updateEventStatus sb ok i v s)) = registrations s \<and>
   participants (snd (updateEventStatus sb ok i v s)) = participants s"
  by (simp add: updateEventStatus_def Let_def split: option.splits)

lemma deleteEvent_tables:
  "(\<exists>P. registrations (snd (deleteEvent sb ok e s)) = filter P (registrations s)) \<and>
   (\<exists>Q. participants (snd (deleteEvent sb ok e s)) = filter Q (participants s))"
proof -
  have keep: "xs = filter (\<lambda>x. True) xs" for xs :: "'a list"
    by simp
  show ?thesis
    by (cases sb; cases ok; cases "e \<in> set (map evt_id (events s))")
      (auto simp: deleteEvent_def delete_event_cascade_def Let_def intro: keep)
qed

lemma registerForEvent_tables:
  "participants (snd (registerForEvent sb env u n e t s)) = participants s \<and>
   (registrations (snd (registerForEvent sb env u n e t s)) = registrations s \<or>
    (\<exists>row. registrations (snd (registerForEvent sb env u n e t s)) = registrations s @ [row] \<and>
       reg_id row = rg_new_id env \<and> reg_id row \<notin> set (map reg_id (registrations s)) \<and>
       reg_user_id row = u \<and> reg_event_id row = e \<and> reg_status row = Registered \<and>
       reg_qr_payload row = e @ '':'' @ u \<and>
       fst (registerForEvent sb env u n e t s) = Inr (Some (mapReg row))))"
  by (simp add: registerForEvent_def pg_insert_def Let_def split: option.splits)

lemma checkInUser_tables:
  "snd (checkInUser sb env p s) = s \<or>
   (\<exists>reg\<in>set (registrations s). reg_status reg \<noteq> CheckedIn \<and>
      registrations (snd (checkInUser sb env p s)) =
        map (\<lambda>r. if reg_id r = reg_id reg then stamp (ci_now env) r else r) (registrations s) \<and>
      (participants (snd (checkInUser sb env p s)) = participants s \<or>
       (\<exists>a. participants (snd (checkInUser sb env p s)) = participants s @ [a] \<and>
            par_registration_id a = reg_id reg)))"
proof (cases sb)
  case None
  then show ?thesis by (simp add: checkInUser_def)
next
  case (Some c)
  let ?hits = "filter (\<lambda>r. reg_qr_payload r = p) (registrations s)"
  show ?thesis
  proof (cases "ci_fetch_ok env \<and> (\<exists>reg. ?hits = [reg])")
    case False
    then have "pg_data (maybeSingle (ci_fetch_ok env) ?hits) = None"
      by (cases "pg_data (maybeSingle (ci_fetch_ok env) ?hits)") (auto simp: maybeSingle_Some)
    with Some show ?thesis
      by (simp add: checkInUser_def Let_def)
  next
    case True
    then obtain reg where f: "ci_fetch_ok env" and one: "?hits = [reg]"
      by blast
    from one have mem: "reg \<in> set (registrations s)"
      by (rule filter_single_in)
    show ?thesis
    proof (cases "reg_status reg = CheckedIn \<or> \<not> ci_update_ok env")
      case True
      with Some show ?thesis
        by (auto simp: checkInUser_found [OF f one])
    next
      case False
      with Some mem show ?thesis
        by (intro disjI2 bexI [of _ reg])
          (auto simp: checkInUser_found [OF f one] Let_def pg_insert_def split: option.splits)
    qed
  qed
qed

subsection \<open>A checked-in row is final\<close>

lemma settled_same:
  "registrations s' = registrations s \<Longrightarrow> settled r s \<Longrightarrow> settled r s'"
  by (simp add: settled_def)

lemma audit_same:
  "participants s' = participants s \<Longrightarrow> audit_rows r s' \<subseteq> audit_rows r s"
  by (simp add: audit_rows_def)

lemma step_keeps_checked_in:
  assumes fin: "reg_status r = CheckedIn"
    and inv: "settled r s"
    and fresh: "\<not> issues_reg_id (reg_id r) op"
  shows "settled r (step sb op s) \<and> audit_rows r (step sb op s) \<subseteq> audit_rows r s"
proof (cases op)
  case (Init a b n)
  with inv show ?thesis
    by (simp add: init_tables settled_same audit_same)
next
  case (CreateUser ok n u)
  with inv show ?thesis
    by (simp add: createUser_tables settled_same audit_same)
next
  case (UpdateUserStatus ok i v)
  with inv show ?thesis
    by (simp add: updateUserStatus_tables settled_same audit_same)
next
  case (CreateEvent ok n t e)
  with inv show ?thesis
    by (simp add: createEvent_tables settled_same audit_same)
next
  case (UpdateEventStatus ok i v)
  with inv show ?thesis
    by (simp add: updateEventStatus_tables settled_same audit_same)
next
  case (DeleteEvent ok e)
  from deleteEvent_tables [of sb ok e s] obtain P Q where
    "registrations (snd (deleteEvent sb ok e s)) = filter P (registrations s)"
    "participants (snd (deleteEvent sb ok e s)) = filter Q (participants s)"
    by blast
  with inv DeleteEvent show ?thesis
    by (auto simp: settled_def audit_rows_def)
next
  case (RegisterForEvent env u n e t)
  with fresh have ne: "rg_new_id env \<noteq> reg_id r" by simp
  from registerForEvent_tables [of sb env u n e t s] inv ne RegisterForEvent show ?thesis
    by (auto simp: settled_def audit_rows_def)
next
  case (CheckInUser env p)
  from checkInUser_tables [of sb env p s]
  show ?thesis
  proof
    assume "snd (checkInUser sb env p s) = s"
    with inv CheckInUser show ?thesis by simp
  next
    assume "\<exists>reg\<in>set (registrations s). reg_status reg \<noteq> CheckedIn \<and>
      registrations (snd (checkInUser sb env p s)) =
        map (\<lambda>r. if reg_id r = reg_id reg then stamp (ci_now env) r else r) (registrations s) \<and>
      (participants (snd (checkInUser sb env p s)) = participants s \<or>
       (\<exists>a. participants (snd (checkInUser sb env p s)) = participants s @ [a] \<and>
            par_registration_id a = reg_id reg))"
    then obtain reg where reg: "reg \<in> set (registrations s)" "reg_status reg \<noteq> CheckedIn"
      and regs: "registrations (snd (checkInUser sb env p s)) =
        map (\<lambda>r. if reg_id r = reg_id reg then stamp (ci_now env) r else r) (registrations s)"
      and parts: "participants (snd (checkInUser sb env p s)) = participants s \<or>
       (\<exists>a. participants (snd (checkInUser sb env p s)) = participants s @ [a] \<and>
            par_registration_id a = reg_id reg)"
      by blast
    from reg inv fin have other: "reg_id reg \<noteq> reg_id r"
      by (auto simp: settled_def)
    have "settled r (snd (checkInUser sb env p s))"
      using inv other by (auto simp: settled_def regs)
    moreover have "audit_rows r (snd (checkInUser sb env p s)) \<subseteq> audit_rows r s"
      using parts other by (auto simp: audit_rows_def)
    ultimately show ?thesis using CheckInUser by simp
  qed
qed

lemma run_keeps_checked_in:
  assumes "reg_status r = CheckedIn"
  shows "settled r s \<Longrightarrow> \<forall>op\<in>set ops. \<not> issues_reg_id (reg_id r) op \<Longrightarrow>
         settled r (run sb ops s) \<and> audit_rows r (run sb ops s) \<subseteq> audit_rows r s"
proof (induction ops arbitrary: s)
  case Nil
  then show ?case by simp
next
  case (Cons op ops)
  from Cons.prems have first: "\<not> issues_reg_id (reg_id r) op"
    and rest: "\<forall>x\<in>set ops. \<not> issues_reg_id (reg_id r) x"
    by simp_all
  from step_keeps_checked_in [OF assms Cons.prems(1) first, of sb]
  have s1: "settled r (step sb op s)" and a1: "audit_rows r (step sb op s) \<subseteq> audit_rows r s"
    by simp_all
  from Cons.IH [OF s1 rest] a1 show ?case
    by auto
qed

subsection \<open>One registration per user and event\<close>

lemma reg_unique_same:
  "registrations s' = registrations s \<Longrightarrow> reg_unique s \<Longrightarrow> reg_unique s'"
  by (simp add: reg_unique_def)

lemma registerForEvent_no_row:
  assumes "\<forall>r\<in>set (registrations s). \<not> (reg_user_id r = userId \<and> reg_event_id r = eventId)"
  shows "registerForEvent (Some c) env userId userName eventId eventTitle s =
     (let new = \<lparr>reg_id = rg_new_id env, reg_user_id = userId, reg_user_name = userName,
                 reg_event_id = eventId, reg_event_title = eventTitle,
                 reg_timestamp = rg_now env, reg_status = Registered,
                 reg_qr_payload = eventId @ '':'' @ userId, reg_check_in_time = None\<rparr>
      in if rg_insert_ok env \<and> rg_new_id env \<notin> set (map reg_id (registrations s))
         then (Inr (Some (mapReg new)), s\<lparr>registrations := registrations s @ [new]\<rparr>)
         else (Inl PostgrestError, s))"
proof -
  have "filter (\<lambda>r. reg_user_id r = userId \<and> reg_event_id r = eventId) (registrations s) = []"
    using assms by (simp add: filter_empty_conv)
  then show ?thesis
    by (simp add: registerForEvent_def maybeSingle_def pg_insert_def Let_def)
qed

lemma registerForEvent_row_exists:
  assumes uniq: "reg_unique s"
    and ans: "rg_lookup_ok env"
    and ex: "\<exists>r\<in>set (registrations s). reg_user_id r = userId \<and> reg_event_id r = eventId"
  shows "registerForEvent (Some c) env userId userName eventId eventTitle s = (Inr None, s)"
proof -
  from ex obtain r where r: "r \<in> set (registrations s)" "reg_user_id r = userId"
    "reg_event_id r = eventId" by blast
  from uniq have "distinct (map (\<lambda>r. (reg_user_id r, reg_event_id r)) (registrations s))"
    by (simp add: reg_unique_def)
  from distinct_key_filter [OF this r(1)] r(2,3)
  have "filter (\<lambda>x. reg_user_id x = userId \<and> reg_event_id x = eventId) (registrations s) = [r]"
    by simp
  with ans show ?thesis
    by (simp add: registerForEvent_def maybeSingle_def)
qed

lemma stamp_keeps_pair:
  "map (\<lambda>r. (reg_user_id r, reg_event_id r))
     (map (\<lambda>r. if reg_id r = k then stamp now r else r) xs)
   = map (\<lambda>r. (reg_user_id r, reg_event_id r)) xs"
  by (induction xs) simp_all

lemma step_keeps_reg_unique:
  assumes uniq: "reg_unique s" and ans: "lookup_answered op"
  shows "reg_unique (step sb op s)"
proof (cases op)
  case (Init a b n)
  with uniq show ?thesis by (simp add: init_tables reg_unique_same)
next
  case (CreateUser ok n u)
  with uniq show ?thesis by (simp add: createUser_tables reg_unique_same)
next
  case (UpdateUserStatus ok i v)
  with uniq show ?thesis by (simp add: updateUserStatus_tables reg_unique_same)
next
  case (CreateEvent ok n t e)
  with uniq show ?thesis by (simp add: createEvent_tables reg_unique_same)
next
  case (UpdateEventStatus ok i v)
  with uniq show ?thesis by (simp add: updateEventStatus_tables reg_unique_same)
next
  case (DeleteEvent ok e)
  from deleteEvent_tables [of sb ok e s] obtain P where
    "registrations (snd (deleteEvent sb ok e s)) = filter P (registrations s)"
    by blast
  with uniq DeleteEvent show ?thesis
    by (simp add: reg_unique_def distinct_map_filter)
next
  case (RegisterForEvent env u n e t)
  with ans have lk: "rg_lookup_ok env" by simp
  show ?thesis
  proof (cases sb)
    case None
    with uniq RegisterForEvent show ?thesis by (simp add: registerForEvent_def)
  next
    case (Some c)
    show ?thesis
    proof (cases "\<exists>r\<in>set (registrations s). reg_user_id r = u \<and> reg_event_id r = e")
      case True
      from registerForEvent_row_exists [OF uniq lk True] uniq Some RegisterForEvent
      show ?thesis by simp
    next
      case False
      then have none: "\<forall>r\<in>set (registrations s). \<not> (reg_user_id r = u \<and> reg_event_id r = e)"
        by blast
      then have "(u, e) \<notin> set (map (\<lambda>r. (reg_user_id r, reg_event_id r)) (registrations s))"
        by auto
      with uniq Some RegisterForEvent show ?thesis
        by (simp add: registerForEvent_no_row [OF none] reg_unique_def Let_def)
    qed
  qed
next
  case (CheckInUser env p)
  from checkInUser_tables [of sb env p s]
  show ?thesis
  proof
    assume "snd (checkInUser sb env p s) = s"
    with uniq CheckInUser show ?thesis by simp
  next
    assume "\<exists>reg\<in>set (registrations s). reg_status reg \<noteq> CheckedIn \<and>
      registrations (snd (checkInUser sb env p s)) =
        map (\<lambda>r. if reg_id r = reg_id reg then stamp (ci_now env) r else r) (registrations s) \<and>
      (participants (snd (checkInUser sb env p s)) = participants s \<or>
       (\<exists>a. participants (snd (checkInUser sb env p s)) = participants s @ [a] \<and>
            par_registration_id a = reg_id reg))"
    then obtain reg where reg: "reg \<in> set (registrations s)" "reg_status reg \<noteq> CheckedIn"
      and regs: "registrations (snd (checkInUser sb env p s)) =
        map (\<lambda>r. if reg_id r = reg_id reg then stamp (ci_now env) r else r) (registrations s)"
      and parts: "participants (snd (checkInUser sb env p s)) = participants s \<or>
       (\<exists>a. participants (snd (checkInUser sb env p s)) = participants s @ [a] \<and>
            par_registration_id a = reg_id reg)"
      by blast
    have "reg_unique (snd (checkInUser sb env p s))"
      unfolding reg_unique_def regs stamp_keeps_pair
      using uniq [unfolded reg_unique_def] .
    with CheckInUser show ?thesis by simp
  qed
qed

section \<open>The claims\<close>

subsection \<open>Check-in\<close>

text \<open>
  C1 (as amended). In a store whose registration ids are unique, for every QR payload that
  matches exactly one stored registration whose status is \<open>registered\<close>: when the backend
  answers the lookup, the status update, the audit insert (with an unused id) and the final
  re-read, \<open>checkInUser\<close> sets that registration's status to \<open>checked-in\<close>, stamps the
  check-in time, appends one participants row that references the registration, its user
  and its event, and returns \<open>success = true\<close> with the updated registration.
\<close>

theorem checkInUser_success:
  assumes pk: "distinct (map reg_id (registrations s))"
    and one: "filter (\<lambda>r. reg_qr_payload r = qrPayload) (registrations s) = [reg]"
    and st: "reg_status reg = Registered"
    and ok: "ci_fetch_ok env" "ci_update_ok env" "ci_insert_ok env" "ci_final_ok env"
    and fresh: "ci_new_id env \<notin> set (map par_id (participants s))"
  shows "\<exists>i<length (registrations s). registrations s ! i = reg \<and>
     checkInUser (supabase env_url env_key) env qrPayload s =
       (Inr \<lparr>success = True, message = None,
             registration = Some (mapReg (reg\<lparr>reg_status := CheckedIn,
                                             reg_check_in_time := Some (ci_now env)\<rparr>))\<rparr>,
        s\<lparr>registrations :=
             (registrations s)[i := reg\<lparr>reg_status := CheckedIn,
                                       reg_check_in_time := Some (ci_now env)\<rparr>],
          participants := participants s @
             [\<lparr>par_id = ci_new_id env, par_registration_id = reg_id reg,
               par_user_id = reg_user_id reg, par_event_id = reg_event_id reg,
               par_user_name = reg_user_name reg, par_event_title = reg_event_title reg,
               par_check_in_time = ci_now env\<rparr>]\<rparr>)"
proof -
  from one have mem: "reg \<in> set (registrations s)"
    by (rule filter_single_in)
  with pk have byid: "filter (\<lambda>r. reg_id r = reg_id reg) (registrations s) = [reg]"
    by (rule distinct_key_filter)
  from filter_key_single [OF byid, of "stamp (ci_now env)"] obtain i where
    i: "i < length (registrations s)" "registrations s ! i = reg"
       "map (\<lambda>r. if reg_id r = reg_id reg then stamp (ci_now env) r else r) (registrations s)
          = (registrations s)[i := stamp (ci_now env) reg]"
    by blast
  have re: "filter (\<lambda>r. reg_id r = reg_id reg)
              (map (\<lambda>r. if reg_id r = reg_id reg then stamp (ci_now env) r else r)
                 (registrations s)) = [stamp (ci_now env) reg]"
    using byid by (rule refetch_after_update)
  have re2: "filter (\<lambda>r. reg_id r = reg_id reg)
               ((registrations s)[i := stamp (ci_now env) reg]) = [stamp (ci_now env) reg]"
    using re unfolding i(3) .
  have ins: "fst (pg_insert (ci_insert_ok env) par_id p (participants s)) = participants s @ [p]"
    if "par_id p = ci_new_id env" for p
    using ok(3) fresh that by (simp add: pg_insert_def)
  have "checkInUser (supabase env_url env_key) env qrPayload s =
       (Inr \<lparr>success = True, message = None,
             registration = Some (mapReg (stamp (ci_now env) reg))\<rparr>,
        s\<lparr>registrations := (registrations s)[i := stamp (ci_now env) reg],
          participants := participants s @
             [\<lparr>par_id = ci_new_id env, par_registration_id = reg_id reg,
               par_user_id = reg_user_id reg, par_event_id = reg_event_id reg,
               par_user_name = reg_user_name reg, par_event_title = reg_event_title reg,
               par_check_in_time = ci_now env\<rparr>]\<rparr>)"
    unfolding supabase_client checkInUser_found [OF ok(1) one] i(3)
    using ok(2,4) st by (simp add: Let_def re2 ins single_ok)
  with i(1,2) show ?thesis by blast
qed

text \<open>
  C1 as stated fails: the payload matches the one registered pass, the backend reports an
  error on the update, and \<open>checkInUser\<close> returns \<open>Check-in failed.\<close> with the store
  as it was; when the backend reports an error on the lookup, the answer is
  \<open>Invalid registration code.\<close>.
\<close>

theorem checkInUser_backend_error_counterexample:
  "map reg_qr_payload (registrations campus) = [pass_code] \<and>
   map reg_status (registrations campus) = [Registered] \<and>
   checkInUser (supabase None None) scan_no_update pass_code campus =
     (Inr \<lparr>success = False, message = Some ''Check-in failed.'', registration = None\<rparr>,
      campus) \<and>
   checkInUser (supabase None None) scan_no_lookup pass_code campus =
     (Inr \<lparr>success = False, message = Some ''Invalid registration code.'',
           registration = None\<rparr>, campus)"
  by (simp add: checkInUser_def supabase_client call_defs demo_defs)

theorem checkInUser_success_witness:
  "distinct (map reg_id (registrations campus)) \<and>
   filter (\<lambda>r. reg_qr_payload r = pass_code) (registrations campus) = [pass] \<and>
   reg_status pass = Registered \<and>
   ci_fetch_ok scan \<and> ci_update_ok scan \<and> ci_insert_ok scan \<and> ci_final_ok scan \<and>
   ci_new_id scan \<notin> set (map par_id (participants campus)) \<and>
   checkInUser (supabase None None) scan pass_code campus =
     (Inr \<lparr>success = True, message = None, registration = Some (mapReg pass_used)\<rparr>,
      campus_scanned)"
proof -
  have h1: "distinct (map reg_id (registrations campus))"
    by (simp add: demo_defs)
  have h2: "filter (\<lambda>r. reg_qr_payload r = pass_code) (registrations campus) = [pass]"
    by (simp add: campus_def pass_def)
  have h3: "reg_status pass = Registered"
    by (simp add: pass_def)
  have h4: "ci_fetch_ok scan" "ci_update_ok scan" "ci_insert_ok scan" "ci_final_ok scan"
    by (simp_all add: scan_def)
  have h5: "ci_new_id scan \<notin> set (map par_id (participants campus))"
    by (simp add: campus_def)
  from checkInUser_success [OF h1 h2 h3 h4 h5, of None None]
  have "checkInUser (supabase None None) scan pass_code campus =
     (Inr \<lparr>success = True, message = None, registration = Some (mapReg pass_used)\<rparr>,
      campus_scanned)"
    by (simp add: campus_def campus_scanned_def pass_used_def audit_def pass_def scan_def)
  with h1 h2 h3 h4 h5 show ?thesis by simp
qed

text \<open>
  C4 (as amended). For every QR payload for which the lookup is answered and returns the one
  matching registration, if that registration already has status \<open>checked-in\<close> then
  \<open>checkInUser\<close> returns \<open>success = false\<close> with the message \<open>Already checked in!\<close>
  and the existing registration, and leaves the store unchanged.
\<close>

theorem checkInUser_already_checked_in:
  assumes "ci_fetch_ok env"
    and "filter (\<lambda>r. reg_qr_payload r = qrPayload) (registrations s) = [reg]"
    and "reg_status reg = CheckedIn"
  shows "checkInUser (supabase env_url env_key) env qrPayload s =
           (Inr \<lparr>success = False, message = Some ''Already checked in!'',
                 registration = Some (mapReg reg)\<rparr>, s)"
  using assms(3) by (simp add: supabase_client checkInUser_found [OF assms(1,2)])

text \<open>
  C4 as stated fails: the pass is already checked in, the backend reports an error on the
  lookup, and the answer is \<open>Invalid registration code.\<close>, without the registration.
\<close>

theorem checkInUser_lookup_fails_counterexample:
  "map reg_qr_payload (registrations campus_scanned) = [pass_code] \<and>
   map reg_status (registrations campus_scanned) = [CheckedIn] \<and>
   checkInUser (supabase None None) scan_no_lookup pass_code campus_scanned =
     (Inr \<lparr>success = False, message = Some ''Invalid registration code.'',
           registration = None\<rparr>, campus_scanned)"
  by (simp add: checkInUser_def supabase_client call_defs demo_defs)

theorem checkInUser_already_checked_in_witness:
  "ci_fetch_ok scan \<and>
   filter (\<lambda>r. reg_qr_payload r = pass_code) (registrations campus_scanned) = [pass_used] \<and>
   reg_status pass_used = CheckedIn \<and>
   checkInUser (supabase None None) scan pass_code campus_scanned =
     (Inr \<lparr>success = False, message = Some ''Already checked in!'',
           registration = Some (mapReg pass_used)\<rparr>, campus_scanned)"
proof -
  have h1: "ci_fetch_ok scan"
    by (simp add: scan_def)
  have h2: "filter (\<lambda>r. reg_qr_payload r = pass_code) (registrations campus_scanned)
              = [pass_used]"
    by (simp add: campus_scanned_def pass_used_def pass_def)
  have h3: "reg_status pass_used = CheckedIn"
    by (simp add: pass_used_def)
  show ?thesis
    using h1 h2 h3 checkInUser_already_checked_in [OF h1 h2 h3, of None None] by simp
qed

text \<open>
  C5. For every QR payload that no stored registration carries, \<open>checkInUser\<close> returns
  \<open>success = false\<close> with the message \<open>Invalid registration code.\<close> and the store
  is unchanged, whatever the backend answers.
\<close>

theorem checkInUser_invalid_code:
  assumes "\<forall>r\<in>set (registrations s). reg_qr_payload r \<noteq> qrPayload"
  shows "checkInUser (supabase env_url env_key) env qrPayload s =
           (Inr \<lparr>success = False, message = Some ''Invalid registration code.'',
                 registration = None\<rparr>, s)"
proof -
  have "filter (\<lambda>r. reg_qr_payload r = qrPayload) (registrations s) = []"
    using assms by (simp add: filter_empty_conv)
  then show ?thesis
    by (simp add: checkInUser_def supabase_client maybeSingle_def)
qed

theorem checkInUser_invalid_code_witness:
  "checkInUser (supabase None None) scan ''no such code'' campus =
     (Inr \<lparr>success = False, message = Some ''Invalid registration code.'',
           registration = None\<rparr>, campus)"
proof -
  have h: "\<forall>r\<in>set (registrations campus). reg_qr_payload r \<noteq> ''no such code''"
    by (simp add: demo_defs)
  from checkInUser_invalid_code [OF h] show ?thesis .
qed

text \<open>
  The partial failure of the spec: the update is answered, the audit insert is rejected and
  the final re-read is answered. The registration is left \<open>checked-in\<close>, no participants
  row is added, and the call returns \<open>success = true\<close>.
\<close>

lemma checkInUser_audit_insert_fails:
  assumes pk: "distinct (map reg_id (registrations s))"
    and one: "filter (\<lambda>r. reg_qr_payload r = qrPayload) (registrations s) = [reg]"
    and st: "reg_status reg = Registered"
    and ok: "ci_fetch_ok env" "ci_update_ok env" "ci_final_ok env"
    and rejected: "\<not> ci_insert_ok env \<or> ci_new_id env \<in> set (map par_id (participants s))"
  shows "\<exists>i<length (registrations s). registrations s ! i = reg \<and>
     checkInUser (supabase env_url env_key) env qrPayload s =
       (Inr \<lparr>success = True, message = None,
             registration = Some (mapReg (reg\<lparr>reg_status := CheckedIn,
                                             reg_check_in_time := Some (ci_now env)\<rparr>))\<rparr>,
        s\<lparr>registrations :=
             (registrations s)[i := reg\<lparr>reg_status := CheckedIn,
                                       reg_check_in_time := Some (ci_now env)\<rparr>]\<rparr>)"
proof -
  from one have mem: "reg \<in> set (registrations s)"
    by (rule filter_single_in)
  with pk have byid: "filter (\<lambda>r. reg_id r = reg_id reg) (registrations s) = [reg]"
    by (rule distinct_key_filter)
  from filter_key_single [OF byid, of "stamp (ci_now env)"] obtain i where
    i: "i < length (registrations s)" "registrations s ! i = reg"
       "map (\<lambda>r. if reg_id r = reg_id reg then stamp (ci_now env) r else r) (registrations s)
          = (registrations s)[i := stamp (ci_now env) reg]"
    by blast
  have re: "filter (\<lambda>r. reg_id r = reg_id reg)
              (map (\<lambda>r. if reg_id r = reg_id reg then stamp (ci_now env) r else r)
                 (registrations s)) = [stamp (ci_now env) reg]"
    using byid by (rule refetch_after_update)
  have ins: "fst (pg_insert (ci_insert_ok env) par_id p (participants s)) = participants s"
    if "par_id p = ci_new_id env" for p
    using rejected that by (auto simp: pg_insert_def)
  have "checkInUser (supabase env_url env_key) env qrPayload s =
       (Inr \<lparr>success = True, message = None,
             registration = Some (mapReg (stamp (ci_now env) reg))\<rparr>,
        s\<lparr>registrations := (registrations s)[i := stamp (ci_now env) reg]\<rparr>)"
    using ok st re
    by (simp add: supabase_client checkInUser_found [OF ok(1) one] ins single_ok flip: i(3))
  with i(1,2) show ?thesis by blast
qed

lemma checkInUser_audit_insert_fails_example:
  "checkInUser (supabase None None) (scan\<lparr>ci_insert_ok := False\<rparr>) pass_code campus =
     (Inr \<lparr>success = True, message = None, registration = Some (mapReg pass_used)\<rparr>,
      campus_unaudited)"
proof -
  let ?env = "scan\<lparr>ci_insert_ok := False\<rparr>"
  have h1: "distinct (map reg_id (registrations campus))"
    by (simp add: demo_defs)
  have h2: "filter (\<lambda>r. reg_qr_payload r = pass_code) (registrations campus) = [pass]"
    by (simp add: campus_def pass_def)
  have h3: "reg_status pass = Registered"
    by (simp add: pass_def)
  have h4: "ci_fetch_ok ?env" "ci_update_ok ?env" "ci_final_ok ?env"
    by (simp_all add: scan_def)
  have h5: "\<not> ci_insert_ok ?env \<or> ci_new_id ?env \<in> set (map par_id (participants campus))"
    by simp
  from checkInUser_audit_insert_fails [OF h1 h2 h3 h4 h5, of None None]
  show ?thesis
    by (simp add: campus_def campus_unaudited_def pass_used_def pass_def scan_def)
qed

text \<open>
  C6. With the update answered and the audit insert rejected, the claim has the call return
  \<open>success = true\<close> in every execution. When the final re-read is not answered either
  (the connection is lost after the update), \<open>finalReg\<close> is \<open>null\<close>, \<open>mapReg\<close> reads a
  property of it and the call raises: the registration is checked in, no participants row
  exists, and the caller gets an error instead of \<open>success = true\<close>.
\<close>

theorem checkInUser_reread_fails:
  "map reg_qr_payload (registrations campus) = [pass_code] \<and>
   map reg_status (registrations campus) = [Registered] \<and>
   checkInUser (supabase None None) scan_cut_off pass_code campus =
     (Inl TypeError, campus_unaudited)"
  by (simp add: checkInUser_def supabase_client call_defs demo_defs)

text \<open>
  C10. On a successful check-in exactly one row of the registrations table changes: the row
  at some position \<open>i\<close>, which carries the payload, has its status set to \<open>checked-in\<close> and
  its check-in time to the time of the call; its other columns and every other row are
  as before, and so are the users and events tables.
\<close>

theorem checkInUser_frame:
  assumes run: "checkInUser sb env qrPayload s = (Inr res, s')"
    and succ: "success res"
  shows "\<exists>i<length (registrations s).
           reg_qr_payload (registrations s ! i) = qrPayload \<and>
           registrations s' =
             (registrations s)[i := (registrations s ! i)\<lparr>reg_status := CheckedIn,
                                       reg_check_in_time := Some (ci_now env)\<rparr>] \<and>
           users s' = users s \<and> events s' = events s"
proof -
  from run obtain c where sb: "sb = Some c"
    by (cases sb) (auto simp: checkInUser_def)
  let ?hits = "filter (\<lambda>r. reg_qr_payload r = qrPayload) (registrations s)"
  have "\<exists>reg. ci_fetch_ok env \<and> ?hits = [reg]"
  proof (cases "pg_data (maybeSingle (ci_fetch_ok env) ?hits)")
    case None
    with run succ sb show ?thesis
      by (auto simp: checkInUser_def Let_def split: if_splits)
  next
    case (Some reg)
    then show ?thesis by (simp add: maybeSingle_Some)
  qed
  then obtain reg where f: "ci_fetch_ok env" and one: "?hits = [reg]"
    by blast
  let ?g = "\<lambda>r. if reg_id r = reg_id reg then stamp (ci_now env) r else r"
  let ?again = "filter (\<lambda>r. reg_id r = reg_id reg) (map ?g (registrations s))"
  from run succ sb have body:
    "reg_status reg \<noteq> CheckedIn" "ci_update_ok env"
    "\<exists>fr. pg_data (single (ci_final_ok env) ?again) = Some fr"
    "registrations s' = map ?g (registrations s)" "users s' = users s" "events s' = events s"
    by (auto simp: checkInUser_found [OF f one] Let_def split: if_splits option.splits)
  from body(3) obtain fr where "?again = [fr]"
    by (auto simp: single_Some)
  moreover have "?again = map ?g (filter (\<lambda>r. reg_id r = reg_id reg) (registrations s))"
    by (rule filter_map_key) simp
  ultimately obtain x where x: "filter (\<lambda>r. reg_id r = reg_id reg) (registrations s) = [x]"
    by (auto simp: map_eq_Cons_conv)
  from one have "reg \<in> set (registrations s)" "reg_qr_payload reg = qrPayload"
    by (rule filter_single_in, rule filter_single_holds)
  then have "reg \<in> set (filter (\<lambda>r. reg_id r = reg_id reg) (registrations s))"
    by simp
  with x have "x = reg" by simp
  with x have byid: "filter (\<lambda>r. reg_id r = reg_id reg) (registrations s) = [reg]"
    by simp
  from filter_key_single [OF byid, of "stamp (ci_now env)"] obtain i where
    i: "i < length (registrations s)" "registrations s ! i = reg"
       "map ?g (registrations s) = (registrations s)[i := stamp (ci_now env) reg]"
    by blast
  show ?thesis
    using i body(4-6) \<open>reg_qr_payload reg = qrPayload\<close>
    by (intro exI [of _ i]) simp
qed

theorem checkInUser_frame_witness:
  "checkInUser (supabase None None) scan pass_code campus =
     (Inr \<lparr>success = True, message = None, registration = Some (mapReg pass_used)\<rparr>,
      campus_scanned) \<and>
   success \<lparr>success = True, message = None, registration = Some (mapReg pass_used)\<rparr> \<and>
   (\<exists>i<length (registrations campus).
       reg_qr_payload (registrations campus ! i) = pass_code \<and>
       registrations campus_scanned =
         (registrations campus)[i := (registrations campus ! i)\<lparr>reg_status := CheckedIn,
                                       reg_check_in_time := Some (ci_now scan)\<rparr>] \<and>
       users campus_scanned = users campus \<and> events campus_scanned = events campus)"
proof -
  have h1: "checkInUser (supabase None None) scan pass_code campus =
     (Inr \<lparr>success = True, message = None, registration = Some (mapReg pass_used)\<rparr>,
      campus_scanned)"
    by (simp add: checkInUser_def supabase_client call_defs demo_defs)
  have h2: "success \<lparr>success = True, message = None,
                     registration = Some (mapReg pass_used)\<rparr>"
    by simp
  from h1 h2 checkInUser_frame [OF h1 h2] show ?thesis by blast
qed

text \<open>
  C2. Let \<open>r\<close> be a checked-in registration, the only row with its id, and let the id
  generator not issue that id again. After any sequence of operations every row with the id
  of \<open>r\<close> is still \<open>r\<close> itself, with its status and its check-in time, and no
  participants row that references \<open>r\<close> has been added: the transition is neither undone
  nor performed again (a deleted event may have removed the row).
\<close>

theorem checked_in_is_final:
  assumes "r \<in> set (registrations s)"
    and "reg_status r = CheckedIn"
    and "\<forall>x\<in>set (registrations s). reg_id x = reg_id r \<longrightarrow> x = r"
    and "\<forall>op\<in>set ops. \<not> issues_reg_id (reg_id r) op"
  shows "(\<forall>x\<in>set (registrations (run sb ops s)). reg_id x = reg_id r \<longrightarrow> x = r) \<and>
         (\<forall>a\<in>set (participants (run sb ops s)).
             par_registration_id a = reg_id r \<longrightarrow> a \<in> set (participants s))"
proof -
  from assms(3) have "settled r s" by (simp add: settled_def)
  from run_keeps_checked_in [OF assms(2) this assms(4), of sb]
  show ?thesis by (auto simp: settled_def audit_rows_def)
qed

text \<open>
  After a second scan of the used pass, a second sign-up of the same student and the
  rejection of the event, the used pass is the same row.
\<close>

theorem checked_in_is_final_witness:
  "run (supabase None None)
      [CheckInUser scan pass_code,
       RegisterForEvent (signup\<lparr>rg_new_id := pass2_id\<rparr>) ann_id ''Ann'' intro_id ''Intro'',
       UpdateEventStatus True intro_id ReviewRejected] campus_scanned =
     campus_scanned\<lparr>events := [intro\<lparr>evt_status := Rejected\<rparr>]\<rparr> \<and>
   \<not> (\<exists>x\<in>set (registrations (run (supabase None None)
              [CheckInUser scan pass_code,
               RegisterForEvent (signup\<lparr>rg_new_id := pass2_id\<rparr>) ann_id ''Ann'' intro_id ''Intro'',
               UpdateEventStatus True intro_id ReviewRejected] campus_scanned)).
         reg_id x = reg_id pass_used \<and> x \<noteq> pass_used)"
proof -
  let ?ops = "[CheckInUser scan pass_code,
               RegisterForEvent (signup\<lparr>rg_new_id := pass2_id\<rparr>) ann_id ''Ann'' intro_id ''Intro'',
               UpdateEventStatus True intro_id ReviewRejected]"
  have h1: "pass_used \<in> set (registrations campus_scanned)"
    by (simp add: campus_scanned_def)
  have h2: "reg_status pass_used = CheckedIn"
    by (simp add: pass_used_def)
  have h3: "\<forall>x\<in>set (registrations campus_scanned). reg_id x = reg_id pass_used \<longrightarrow> x = pass_used"
    by (simp add: campus_scanned_def)
  have h4: "\<forall>op\<in>set ?ops. \<not> issues_reg_id (reg_id pass_used) op"
    by (simp add: pass_used_def pass_def signup_def pass_id_def pass2_id_def)
  have final: "run (supabase None None) ?ops campus_scanned =
                 campus_scanned\<lparr>events := [intro\<lparr>evt_status := Rejected\<rparr>]\<rparr>"
    by (simp add: checkInUser_def registerForEvent_def updateEventStatus_def approval_of_def
        supabase_client call_defs demo_defs)
  from checked_in_is_final [OF h1 h2 h3 h4, of "supabase None None"]
  have "\<not> (\<exists>x\<in>set (registrations (run (supabase None None) ?ops campus_scanned)).
            reg_id x = reg_id pass_used \<and> x \<noteq> pass_used)"
    by blast
  with final show ?thesis by blast
qed

subsection \<open>Registration\<close>

text \<open>
  C3 (as amended). In every store with at most one registration per pair of user and event:
  a \<open>registerForEvent\<close> call whose existence lookup is answered returns \<open>null\<close> and leaves
  the store unchanged when a registration for the pair exists; when none exists, the call
  inserts exactly one new registration with status \<open>registered\<close> if the backend accepts the
  insert, and otherwise throws the backend's error and leaves the store unchanged; and
  every operation whose existence lookup is answered preserves the invariant.
\<close>

theorem registerForEvent_once_per_pair:
  assumes uniq: "reg_unique s"
  shows
    "(rg_lookup_ok env \<and>
      (\<exists>r\<in>set (registrations s). reg_user_id r = userId \<and> reg_event_id r = eventId) \<longrightarrow>
        registerForEvent (supabase env_url env_key) env userId userName eventId eventTitle s =
          (Inr None, s)) \<and>
     ((\<forall>r\<in>set (registrations s). \<not> (reg_user_id r = userId \<and> reg_event_id r = eventId)) \<longrightarrow>
        registerForEvent (supabase env_url env_key) env userId userName eventId eventTitle s =
          (let new = \<lparr>reg_id = rg_new_id env, reg_user_id = userId, reg_user_name = userName,
                  reg_event_id = eventId, reg_event_title = eventTitle,
                  reg_timestamp = rg_now env, reg_status = Registered,
                  reg_qr_payload = eventId @ '':'' @ userId, reg_check_in_time = None\<rparr>
           in if rg_insert_ok env \<and> rg_new_id env \<notin> set (map reg_id (registrations s))
              then (Inr (Some (mapReg new)), s\<lparr>registrations := registrations s @ [new]\<rparr>)
              else (Inl PostgrestError, s))) \<and>
     (\<forall>op. lookup_answered op \<longrightarrow> reg_unique (step sb op s))"
proof (intro conjI impI allI)
  assume "rg_lookup_ok env \<and>
      (\<exists>r\<in>set (registrations s). reg_user_id r = userId \<and> reg_event_id r = eventId)"
  then show "registerForEvent (supabase env_url env_key) env userId userName eventId eventTitle s
               = (Inr None, s)"
    using uniq by (simp add: supabase_client registerForEvent_row_exists)
next
  assume none: "\<forall>r\<in>set (registrations s). \<not> (reg_user_id r = userId \<and> reg_event_id r = eventId)"
  show "registerForEvent (supabase env_url env_key) env userId userName eventId eventTitle s =
          (let new = \<lparr>reg_id = rg_new_id env, reg_user_id = userId, reg_user_name = userName,
                  reg_event_id = eventId, reg_event_title = eventTitle,
                  reg_timestamp = rg_now env, reg_status = Registered,
                  reg_qr_payload = eventId @ '':'' @ userId, reg_check_in_time = None\<rparr>
           in if rg_insert_ok env \<and> rg_new_id env \<notin> set (map reg_id (registrations s))
              then (Inr (Some (mapReg new)), s\<lparr>registrations := registrations s @ [new]\<rparr>)
              else (Inl PostgrestError, s))"
    unfolding supabase_client by (rule registerForEvent_no_row [OF none])
next
  fix op
  assume "lookup_answered op"
  with uniq show "reg_unique (step sb op s)"
    by (rule step_keeps_reg_unique)
qed

text \<open>
  C3 as stated fails: no registration exists for the pair, the backend rejects the insert,
  and the call throws; no registration is inserted.
\<close>

theorem registerForEvent_insert_rejected_counterexample:
  "registrations campus_open = [] \<and>
   registerForEvent (supabase None None) signup_rejected
       ann_id ''Ann'' intro_id ''Intro'' campus_open =
     (Inl PostgrestError, campus_open)"
  by (simp add: registerForEvent_def supabase_client call_defs demo_defs)

theorem registerForEvent_once_per_pair_witness:
  "reg_unique campus \<and> rg_lookup_ok signup \<and>
   (\<exists>r\<in>set (registrations campus). reg_user_id r = ann_id \<and> reg_event_id r = intro_id) \<and>
   registerForEvent (supabase None None) signup ann_id ''Ann'' intro_id ''Intro'' campus =
     (Inr None, campus) \<and>
   reg_unique campus_open \<and> registrations campus_open = [] \<and>
   registerForEvent (supabase None None) signup ann_id ''Ann'' intro_id ''Intro'' campus_open =
     (Inr (Some (mapReg pass)), campus) \<and>
   lookup_answered (RegisterForEvent signup ann_id ''Ann'' intro_id ''Intro'') \<and>
   reg_unique (step (supabase None None)
                 (RegisterForEvent signup ann_id ''Ann'' intro_id ''Intro'') campus_open)"
proof -
  have u1: "reg_unique campus"
    by (simp add: reg_unique_def campus_def)
  have u0: "reg_unique campus_open"
    by (simp add: reg_unique_def campus_open_def)
  have lk: "rg_lookup_ok signup"
    by (simp add: signup_def)
  have ex: "\<exists>r\<in>set (registrations campus). reg_user_id r = ann_id \<and> reg_event_id r = intro_id"
    by (simp add: campus_def pass_def)
  have none: "\<forall>r\<in>set (registrations campus_open).
                \<not> (reg_user_id r = ann_id \<and> reg_event_id r = intro_id)"
    by (simp add: campus_open_def)
  have la: "lookup_answered (RegisterForEvent signup ann_id ''Ann'' intro_id ''Intro'')"
    by (simp add: signup_def)
  note at_campus =
    registerForEvent_once_per_pair [OF u1, of signup ann_id intro_id None None "''Ann''" "''Intro''"
      "supabase None None"]
  note at_open =
    registerForEvent_once_per_pair [OF u0, of signup ann_id intro_id None None "''Ann''" "''Intro''"
      "supabase None None"]
  from at_campus lk ex
  have r1: "registerForEvent (supabase None None) signup ann_id ''Ann'' intro_id ''Intro'' campus
              = (Inr None, campus)"
    by blast
  from at_open none
  have "registerForEvent (supabase None None) signup ann_id ''Ann'' intro_id ''Intro'' campus_open =
          (let new = \<lparr>reg_id = rg_new_id signup, reg_user_id = ann_id, reg_user_name = ''Ann'',
                  reg_event_id = intro_id, reg_event_title = ''Intro'',
                  reg_timestamp = rg_now signup, reg_status = Registered,
                  reg_qr_payload = intro_id @ '':'' @ ann_id, reg_check_in_time = None\<rparr>
           in if rg_insert_ok signup \<and> rg_new_id signup \<notin> set (map reg_id (registrations campus_open))
              then (Inr (Some (mapReg new)),
                    campus_open\<lparr>registrations := registrations campus_open @ [new]\<rparr>)
              else (Inl PostgrestError, campus_open))"
    by blast
  then have r0: "registerForEvent (supabase None None) signup ann_id ''Ann'' intro_id ''Intro''
                   campus_open = (Inr (Some (mapReg pass)), campus)"
    by (simp add: Let_def signup_def campus_open_def campus_def pass_def pass_code_def)
  from at_open la
  have r2: "reg_unique (step (supabase None None)
                 (RegisterForEvent signup ann_id ''Ann'' intro_id ''Intro'') campus_open)"
    by blast
  have e0: "registrations campus_open = []"
    by (simp add: campus_open_def)
  from u1 lk ex r1 u0 e0 r0 la r2 show ?thesis by blast
qed

text \<open>
  What the amended C3 leaves out: the error of the existence lookup is not inspected, so
  when the lookup is not answered the insert is attempted although the student holds a pass,
  and an accepted insert leaves two registrations for the pair.
\<close>

lemma registerForEvent_unanswered_lookup:
  "registerForEvent (supabase None None) (signup\<lparr>rg_lookup_ok := False, rg_new_id := pass2_id\<rparr>)
       ann_id ''Ann'' intro_id ''Intro'' campus =
     (Inr (Some (mapReg (pass\<lparr>reg_id := pass2_id\<rparr>))),
      campus\<lparr>registrations := [pass, pass\<lparr>reg_id := pass2_id\<rparr>]\<rparr>)"
  by (simp add: registerForEvent_def supabase_client call_defs demo_defs)

text \<open>
  C7. Every \<open>registerForEvent\<close> call that changes the registrations table appends exactly
  one row, and the payload stored in it (and returned) is the event id, a colon and the
  user id, nothing else.
\<close>

theorem registerForEvent_qr_payload:
  assumes "registerForEvent sb env userId userName eventId eventTitle s = (res, s')"
    and "registrations s' \<noteq> registrations s"
  shows "\<exists>row. registrations s' = registrations s @ [row] \<and>
           reg_qr_payload row = eventId @ '':'' @ userId \<and>
           res = Inr (Some (mapReg row)) \<and>
           R_qrPayload (mapReg row) = eventId @ '':'' @ userId"
proof -
  from assms have res: "res = fst (registerForEvent sb env userId userName eventId eventTitle s)"
    and s': "s' = snd (registerForEvent sb env userId userName eventId eventTitle s)"
    by simp_all
  from registerForEvent_tables [of sb env userId userName eventId eventTitle s] assms(2)
  obtain row where "registrations s' = registrations s @ [row]"
    "reg_qr_payload row = eventId @ '':'' @ userId" "res = Inr (Some (mapReg row))"
    unfolding res s' by blast
  then show ?thesis
    by (intro exI [of _ row]) (simp add: mapReg_def)
qed

theorem registerForEvent_qr_payload_witness:
  "registerForEvent (supabase None None) signup ann_id ''Ann'' intro_id ''Intro'' campus_open =
     (Inr (Some (mapReg pass)), campus) \<and>
   registrations campus \<noteq> registrations campus_open \<and>
   (\<exists>row. registrations campus = registrations campus_open @ [row] \<and>
           reg_qr_payload row = intro_id @ '':'' @ ann_id \<and>
           Inr (Some (mapReg pass)) = (Inr (Some (mapReg row)) :: error + Registration option) \<and>
           R_qrPayload (mapReg row) = intro_id @ '':'' @ ann_id)"
proof -
  have h1: "registerForEvent (supabase None None) signup ann_id ''Ann'' intro_id ''Intro''
              campus_open = (Inr (Some (mapReg pass)), campus)"
    by (simp add: registerForEvent_def supabase_client call_defs demo_defs)
  have h2: "registrations campus \<noteq> registrations campus_open"
    by (simp add: campus_def campus_open_def)
  from h1 h2 registerForEvent_qr_payload [OF h1 h2] show ?thesis by blast
qed

subsection \<open>Readers and accounts\<close>

text \<open>
  C8. When the client is not configured or the backend reports an error, each of the six
  list readers resolves to the empty list; none of them raises.
\<close>

theorem list_readers_empty_on_error:
  assumes "sb = None \<or> \<not> ok"
  shows "getEvents sb ok event_tie s = Inr [] \<and>
         getAllUsers sb ok user_tie s = Inr [] \<and>
         getPendingUsers sb ok s = Inr [] \<and>
         getRegistrationsByUser sb ok userId s = Inr [] \<and>
         getRegistrationsByEvent sb ok eventId s = Inr [] \<and>
         getAllParticipants sb ok audit_tie s = Inr []"
proof (cases sb)
  case None
  then show ?thesis
    by (simp add: getEvents_def getAllUsers_def getPendingUsers_def getRegistrationsByUser_def
        getRegistrationsByEvent_def getAllParticipants_def)
next
  case (Some c)
  with assms have "\<not> ok" by simp
  with Some show ?thesis
    by (simp add: getEvents_def getAllUsers_def getPendingUsers_def getRegistrationsByUser_def
        getRegistrationsByEvent_def getAllParticipants_def pg_select_def)
qed

theorem list_readers_empty_on_error_witness:
  "getEvents (supabase None None) False (\<lambda>e. 0) campus_scanned = Inr [] \<and>
   getAllUsers (supabase None None) False (\<lambda>u. 0) campus_scanned = Inr [] \<and>
   getPendingUsers (supabase None None) False campus_scanned = Inr [] \<and>
   getRegistrationsByUser (supabase None None) False ann_id campus_scanned = Inr [] \<and>
   getRegistrationsByEvent (supabase None None) False intro_id campus_scanned = Inr [] \<and>
   getAllParticipants (supabase None None) False (\<lambda>a. 0) campus_scanned = Inr []"
proof -
  have h: "supabase None None = None \<or> \<not> False"
    by simp
  from list_readers_empty_on_error [OF h, where s = campus_scanned and userId = ann_id
      and eventId = intro_id and event_tie = "\<lambda>e. 0" and user_tie = "\<lambda>u. 0"
      and audit_tie = "\<lambda>a. 0"]
  show ?thesis .
qed

text \<open>
  Whenever \<open>createUser\<close> returns a user, whatever the client and the backend's verdict, the
  status of that user is \<open>pending\<close> exactly when the requested role is \<open>organizer\<close>.
\<close>

lemma createUser_result_status:
  assumes "createUser sb ok new_id user s = (Inr u, s')"
  shows "(U_status u = Some Pending \<longleftrightarrow> N_role user = Organizer) \<and>
         (N_role user \<noteq> Organizer \<longrightarrow> U_status u = Some Approved) \<and>
         (\<exists>row. users s' = users s @ [row] \<and> u = mapUser row \<and>
                usr_status row = U_status u)"
  using assms
  by (cases sb)
    (auto simp: createUser_def pg_insert_def Let_def mapUser_def split: if_splits)

text \<open>
  C9. For every user passed to \<open>createUser\<close>: when the backend accepts the insert (it
  answers, and the id is unused), the call creates the user, and the status of the created
  user and of the stored row is \<open>pending\<close> if the requested role is \<open>organizer\<close> and
  \<open>approved\<close> for a student or an admin, whatever status the caller supplied; when the
  backend does not accept the insert the call throws and no user is created. So the status
  of every created user is \<open>pending\<close> exactly when the requested role is \<open>organizer\<close>.
\<close>

theorem createUser_status:
  "createUser (supabase env_url env_key) ok new_id user s =
     (if ok \<and> new_id \<notin> set (map usr_id (users s))
      then (Inr \<lparr>U_id = new_id, U_name = N_name user, U_email = N_email user,
                 U_password = N_password user, U_role = N_role user, U_indexNumber = None,
                 U_uniId = N_uniId user, U_profilePhoto = N_profilePhoto user,
                 U_status = Some (if N_role user = Organizer then Pending else Approved)\<rparr>,
            s\<lparr>users := users s @
                 [\<lparr>usr_id = new_id, usr_name = N_name user, usr_email = N_email user,
                   usr_password = N_password user, usr_role = N_role user,
                   usr_uni_id = N_uniId user, usr_profile_photo = N_profilePhoto user,
                   usr_status = Some (if N_role user = Organizer then Pending
                                      else Approved)\<rparr>]\<rparr>)
      else (Inl PostgrestError, s)) \<and>
   (\<forall>u s'. createUser sb ok new_id user s = (Inr u, s') \<longrightarrow>
      (U_status u = Some Pending \<longleftrightarrow> N_role user = Organizer) \<and>
      (N_role user \<noteq> Organizer \<longrightarrow> U_status u = Some Approved))"
proof (intro conjI allI impI)
  show "createUser (supabase env_url env_key) ok new_id user s =
     (if ok \<and> new_id \<notin> set (map usr_id (users s))
      then (Inr \<lparr>U_id = new_id, U_name = N_name user, U_email = N_email user,
                 U_password = N_password user, U_role = N_role user, U_indexNumber = None,
                 U_uniId = N_uniId user, U_profilePhoto = N_profilePhoto user,
                 U_status = Some (if N_role user = Organizer then Pending else Approved)\<rparr>,
            s\<lparr>users := users s @
                 [\<lparr>usr_id = new_id, usr_name = N_name user, usr_email = N_email user,
                   usr_password = N_password user, usr_role = N_role user,
                   usr_uni_id = N_uniId user, usr_profile_photo = N_profilePhoto user,
                   usr_status = Some (if N_role user = Organizer then Pending
                                      else Approved)\<rparr>]\<rparr>)
      else (Inl PostgrestError, s))"
    by (simp add: createUser_def supabase_client pg_insert_def Let_def mapUser_def)
next
  fix u s'
  assume created: "createUser sb ok new_id user s = (Inr u, s')"
  then show "U_status u = Some Pending \<longleftrightarrow> N_role user = Organizer"
    by (cases sb)
      (auto simp: createUser_def pg_insert_def Let_def mapUser_def split: if_splits)
  assume "N_role user \<noteq> Organizer"
  with created show "U_status u = Some Approved"
    by (cases sb)
      (auto simp: createUser_def pg_insert_def Let_def mapUser_def split: if_splits)
qed

text \<open>
  A student who supplies \<open>pending\<close> and an admin who supplies \<open>rejected\<close> are created
  \<open>approved\<close>; an organizer who supplies \<open>approved\<close> is created \<open>pending\<close>; with the id
  of an existing user the insert is rejected and the call throws.
\<close>

theorem createUser_status_witness:
  "createUser (supabase None None) True bea_id (applicant Student (Some Pending)) campus_open =
     (Inr (account Student Approved), campus_joined Student Approved) \<and>
   createUser (supabase None None) True bea_id (applicant Admin (Some Rejected)) campus_open =
     (Inr (account Admin Approved), campus_joined Admin Approved) \<and>
   createUser (supabase None None) True bea_id (applicant Organizer (Some Approved)) campus_open =
     (Inr (account Organizer Pending), campus_joined Organizer Pending) \<and>
   createUser (supabase None None) True ann_id (applicant Student (Some Pending)) campus_open =
     (Inl PostgrestError, campus_open) \<and>
   U_status (account Student Approved) = Some Approved \<and>
   U_status (account Admin Approved) = Some Approved \<and>
   U_status (account Organizer Pending) = Some Pending"
proof -
  note at = createUser_status [where env_url = None and env_key = None and ok = True
      and s = campus_open and sb = "supabase None None"]
  from at [where new_id = bea_id and user = "applicant Student (Some Pending)"]
  have student: "createUser (supabase None None) True bea_id (applicant Student (Some Pending))
                   campus_open = (Inr (account Student Approved), campus_joined Student Approved)"
    by (simp add: account_defs campus_open_def ann_def ann_id_def)
  from at [where new_id = bea_id and user = "applicant Admin (Some Rejected)"]
  have admin: "createUser (supabase None None) True bea_id (applicant Admin (Some Rejected))
                 campus_open = (Inr (account Admin Approved), campus_joined Admin Approved)"
    by (simp add: account_defs campus_open_def ann_def ann_id_def)
  from at [where new_id = bea_id and user = "applicant Organizer (Some Approved)"]
  have organizer: "createUser (supabase None None) True bea_id
                     (applicant Organizer (Some Approved)) campus_open =
                       (Inr (account Organizer Pending), campus_joined Organizer Pending)"
    by (simp add: account_defs campus_open_def ann_def ann_id_def)
  from at [where new_id = ann_id and user = "applicant Student (Some Pending)"]
  have taken: "createUser (supabase None None) True ann_id (applicant Student (Some Pending))
                 campus_open = (Inl PostgrestError, campus_open)"
    by (simp add: campus_open_def ann_def)
  from student admin organizer taken show ?thesis
    by (simp add: account_def)
qed

end
